theory Spec2Isabelle
  imports Complex_Main
begin

section \<open>The periodic scheduler of internal/api/v1/handler/scheduler.go\<close>

text \<open>
  The scheduler runs a registered, ordered list of named operations once at start and then
  on every tick, retries each failed operation with exponential backoff, and is driven by
  \<open>Start\<close>, \<open>Stop\<close> and \<open>IsRunning\<close>. The model below follows the Go source function
  by function. Go's \<open>int\<close> is modelled by the integers: the counters of the source
  (\<open>attempt\<close>, \<open>count\<close>) start at 0, go up by one and are compared with a configured
  bound, and the status codes are only passed on. The one product the source forms in
  64-bit arithmetic, the backoff as a \<open>time.Duration\<close>, has its wrap-around written out.
  The \<open>float64\<close> tick interval is a real number; rounding is not modelled.
\<close>

subsection \<open>Errors, results and formatting\<close>

text \<open>
  A Go \<open>error\<close> value of this file is either built by \<open>fmt.Errorf\<close> or is an
  \<open>*APIError{Op, Status, Message}\<close>; \<open>nil\<close> is \<open>None\<close>.
\<close>

datatype err = Errorf string | APIError string int string

type_synonym result = "string \<times> int \<times> err option"

function utoa :: "nat \<Rightarrow> string" where
  "utoa n = (if n < 10 then [''0123456789'' ! n]
             else utoa (n div 10) @ [''0123456789'' ! (n mod 10)])"
  by pat_completeness auto
termination
  by (relation "measure id") auto

declare utoa.simps [simp del]

text \<open>The verb \<open>%d\<close> of \<open>fmt.Sprintf\<close>.\<close>

definition itoa :: "int \<Rightarrow> string" where
  "itoa i = (if i < 0 then CHR ''-'' # utoa (nat (- i)) else utoa (nat i))"

text \<open>\<open>(e *APIError) Error()\<close>, and the text of an \<open>Errorf\<close> error (the verb \<open>%v\<close>).\<close>

fun Error :: "err \<Rightarrow> string" where
  "Error (Errorf m) = m"
| "Error (APIError opn st m) = opn @ '' failed (status '' @ itoa st @ ''): '' @ m"

subsection \<open>The environment: clock, file system, messaging API\<close>

text \<open>
  The Telegram client, the file system and the wall clock are collaborators outside the
  scheduler. Their answers are fields of the environment; every client call is recorded
  in \<open>calls\<close> and takes the time the reply says.
\<close>

datatype call =
    CSendMessage int string
  | CSendAnimation int string string
  | CSendVoice int string string
  | CSendVideo int string string
  | CFetchUpdates string

record response =
  body :: string
  code :: int
  failure :: "string option"
  latency :: int

record env =
  now :: int \<comment> \<open>logical time in nanoseconds\<close>
  timeText :: "int \<Rightarrow> string" \<comment> \<open>\<open>time.Time.Format(time.RFC3339)\<close>\<close>
  fileExists :: "string \<Rightarrow> bool" \<comment> \<open>\<open>os.Stat\<close> succeeds\<close>
  fileOpens :: "string \<Rightarrow> bool" \<comment> \<open>\<open>os.OpenFile\<close> for appending succeeds\<close>
  remote :: "nat \<Rightarrow> call \<Rightarrow> response" \<comment> \<open>the reply to the k-th client call\<close>
  calls :: "call list"
  decode :: "string \<Rightarrow> string + (bool \<times> nat)"
    \<comment> \<open>\<open>json.Unmarshal\<close> of a getUpdates body: its error text, or \<open>ok\<close> and the number of results\<close>

definition client_call :: "call \<Rightarrow> env \<Rightarrow> (string \<times> int \<times> string option) \<times> env" where
  "client_call c e =
     (let r = remote e (length (calls e)) c
      in ((body r, code r, failure r),
          e\<lparr>calls := calls e @ [c], now := now e + latency r\<rparr>))"

definition checkFileExists :: "string \<Rightarrow> env \<Rightarrow> bool" where
  "checkFileExists filePath e = fileExists e filePath"

subsection \<open>The scheduler and the process state around it\<close>

type_synonym apiCallFunc = "env \<Rightarrow> result \<times> env"

record scheduler =
  chatID :: int
  client :: string \<comment> \<open>the client, by its token\<close>
  intervalMinutes :: real
  runCount :: int
  retryCount :: int
  retryDelaySec :: int
  running :: bool
  stopChan :: nat \<comment> \<open>the channel, by its address in \<open>chans\<close>\<close>
  wg :: int \<comment> \<open>the counter of the \<open>sync.WaitGroup\<close>\<close>
  apiCalls :: "string \<rightharpoonup> apiCallFunc"
  apiOrder :: "string list"

datatype log_entry =
    LogTerminal string string \<comment> \<open>level and message of \<open>logTerminal\<close>\<close>
  | LogOutcome string nat string \<comment> \<open>operation name, slot index and message of a cycle outcome\<close>
  | LogInit int

datatype event =
    Invoked string int int "err option"
      \<comment> \<open>the operation was called: name, attempt index, and the status and failure it returned\<close>
  | Backoff int int \<comment> \<open>a backoff wait was entered: attempt index and duration in ns\<close>

text \<open>
  The world is what the goroutines of the process share besides the scheduler struct: the
  environment, the channels made so far (\<open>True\<close> is a closed channel), the log records
  written, and the goroutines launched. \<open>extStop\<close> is the instant at which another
  goroutine calls \<open>Stop\<close> (\<open>None\<close>: nobody does), and \<open>stopFirst\<close> is the case a
  \<open>select\<close> picks when both of its cases are ready. \<open>trace\<close> records what the retry loop
  did and is written by nothing else.
\<close>

record world =
  env :: env
  chans :: "bool list"
  extStop :: "int option"
  stopFirst :: bool
  logs :: "log_entry list"
  spawned :: nat
  trace :: "event list"

definition make_chan :: "world \<Rightarrow> nat \<times> world" where
  "make_chan w = (length (chans w), w\<lparr>chans := chans w @ [False]\<rparr>)"

definition is_open :: "world \<Rightarrow> nat \<Rightarrow> bool" where
  "is_open w c = (c < length (chans w) \<and> \<not> chans w ! c)"

definition closed :: "world \<Rightarrow> nat \<Rightarrow> bool" where
  "closed w c = (c < length (chans w) \<and> chans w ! c)"

definition close_chan :: "nat \<Rightarrow> world \<Rightarrow> world" where
  "close_chan c w = w\<lparr>chans := (chans w)[c := True]\<rparr>"

definition logTerminal :: "string \<Rightarrow> string \<Rightarrow> world \<Rightarrow> world" where
  "logTerminal level msg w = w\<lparr>logs := logs w @ [LogTerminal level msg]\<rparr>"

subsection \<open>The registered operations\<close>

definition emoji_rocket :: string where
  "emoji_rocket = [CHR 0xF0, CHR 0x9F, CHR 0x9A, CHR 0x80]"

definition emoji_party :: string where
  "emoji_party = [CHR 0xF0, CHR 0x9F, CHR 0x8E, CHR 0x89]"

definition emoji_microphone :: string where
  "emoji_microphone = [CHR 0xF0, CHR 0x9F, CHR 0x8E, CHR 0x99]"

definition emoji_camera :: string where
  "emoji_camera = [CHR 0xF0, CHR 0x9F, CHR 0x8E, CHR 0xA5]"

definition callSendMessage :: "scheduler \<Rightarrow> apiCallFunc" where
  "callSendMessage s e =
     (let text = emoji_rocket @ '' Scheduler: Test message sent at '' @ timeText e (now e);
          ((_, status, er), e1) = client_call (CSendMessage (chatID s) text) e
      in case er of
           Some m \<Rightarrow> (('''', status, Some (APIError ''SendMessage'' status m)), e1)
         | None \<Rightarrow> ((''SendMessage ok'', status, None), e1))"

definition callSendGIF :: "scheduler \<Rightarrow> apiCallFunc" where
  "callSendGIF s e =
     (let filePath = ''./uploads/happy.gif'' in
      if \<not> checkFileExists filePath e then
        ((''skip sendAnimation - file not found'', 0, None), e)
      else
        (let ((_, status, er), e1) =
               client_call (CSendAnimation (chatID s) filePath (emoji_party @ '' Scheduler test GIF'')) e
         in case er of
              Some m \<Rightarrow> (('''', status, Some (APIError ''SendGIF'' status m)), e1)
            | None \<Rightarrow> ((''sendAnimation sent: '' @ filePath, status, None), e1)))"

definition callSendVoice :: "scheduler \<Rightarrow> apiCallFunc" where
  "callSendVoice s e =
     (let filePath = ''./uploads/test.ogg'' in
      if \<not> checkFileExists filePath e then
        ((''skip sendVoice - file not found'', 0, None), e)
      else
        (let ((_, status, er), e1) =
               client_call (CSendVoice (chatID s) filePath (emoji_microphone @ '' Scheduler test voice'')) e
         in case er of
              Some m \<Rightarrow> (('''', status, Some (APIError ''SendVoice'' status m)), e1)
            | None \<Rightarrow> ((''sendVoice sent: '' @ filePath, status, None), e1)))"

definition callSendVideo :: "scheduler \<Rightarrow> apiCallFunc" where
  "callSendVideo s e =
     (let filePath = ''./uploads/test_small.mp4'' in
      if \<not> checkFileExists filePath e then
        ((''skip sendVideo - file not found'', 0, None), e)
      else
        (let ((_, status, er), e1) =
               client_call (CSendVideo (chatID s) filePath (emoji_camera @ '' Scheduler test video'')) e
         in case er of
              Some m \<Rightarrow> (('''', status, Some (APIError ''SendVideo'' status m)), e1)
            | None \<Rightarrow> ((''sendVideo sent: '' @ filePath, status, None), e1)))"

definition callGetUpdates :: "scheduler \<Rightarrow> apiCallFunc" where
  "callGetUpdates s e =
     (let params = ''?offset=0&limit=100&timeout=0'';
          ((bdy, status, er), e1) = client_call (CFetchUpdates params) e
      in case er of
           Some m \<Rightarrow> (('''', status, Some (APIError ''GetUpdates'' status m)), e1)
         | None \<Rightarrow>
             (case decode e1 bdy of
                Inl m \<Rightarrow> (('''', status, Some (APIError ''GetUpdates'' status m)), e1)
              | Inr (ok, count) \<Rightarrow>
                  if \<not> ok then
                    (('''', status, Some (APIError ''GetUpdates'' status ''telegram API returned not ok'')), e1)
                  else ((''GetUpdates ok: '' @ utoa count @ '' new'', status, None), e1)))"

subsection \<open>The registry and the constructor\<close>

definition RegisterAPI :: "string \<Rightarrow> apiCallFunc \<Rightarrow> scheduler \<Rightarrow> scheduler" where
  "RegisterAPI name fn s =
     s\<lparr>apiCalls := (apiCalls s)(name \<mapsto> fn), apiOrder := apiOrder s @ [name]\<rparr>"

text \<open>
  \<open>strconv.ParseInt(s, 10, 64)\<close>: an optional sign, then decimal digits only; the digits
  are read left to right into an unsigned 64-bit value, and the signed range is checked
  last.
\<close>

datatype NumError = ErrSyntax | ErrRange

definition is_digit :: "char \<Rightarrow> bool" where
  "is_digit c = (48 \<le> (of_char c :: nat) \<and> (of_char c :: nat) \<le> 57)"

fun ParseUint_from :: "nat \<Rightarrow> string \<Rightarrow> NumError + nat" where
  "ParseUint_from n [] = Inr n"
| "ParseUint_from n (c # cs) =
     (if \<not> is_digit c then Inl ErrSyntax
      else if n * 10 + (of_char c - 48) > 2 ^ 64 - 1 then Inl ErrRange
      else ParseUint_from (n * 10 + (of_char c - 48)) cs)"

definition ParseUint :: "string \<Rightarrow> NumError + nat" where
  "ParseUint s = (if s = [] then Inl ErrSyntax else ParseUint_from 0 s)"

definition ParseInt :: "string \<Rightarrow> NumError + int" where
  "ParseInt s0 =
     (case s0 of
        [] \<Rightarrow> Inl ErrSyntax
      | c # cs \<Rightarrow>
          (let neg = (c = CHR ''-'');
               s = (if c = CHR ''+'' \<or> c = CHR ''-'' then cs else s0)
           in case ParseUint s of
                Inl ErrSyntax \<Rightarrow> Inl ErrSyntax
              | Inl ErrRange \<Rightarrow> Inl ErrRange
              | Inr un \<Rightarrow>
                  if \<not> neg \<and> un \<ge> 2 ^ 63 then Inl ErrRange
                  else if neg \<and> un > 2 ^ 63 then Inl ErrRange
                  else Inr (if neg then - int un else int un)))"

datatype ConfigError = InvalidChatID NumError | CannotOpenLogFile

definition NewScheduler ::
  "string \<Rightarrow> string \<Rightarrow> real \<Rightarrow> int \<Rightarrow> int \<Rightarrow> int \<Rightarrow> string \<Rightarrow> world
     \<Rightarrow> (ConfigError + scheduler) \<times> world" where
  "NewScheduler chatIDStr cl interval runs retries delay logFilePath w =
     (case ParseInt chatIDStr of
        Inl e \<Rightarrow> (Inl (InvalidChatID e), w)
      | Inr cid \<Rightarrow>
          if \<not> fileOpens (env w) logFilePath then (Inl CannotOpenLogFile, w)
          else
            (let w1 = w\<lparr>env := (env w)\<lparr>fileExists := (fileExists (env w))(logFilePath := True)\<rparr>\<rparr>;
                 (ch, w2) = make_chan w1;
                 s0 = \<lparr>chatID = cid, client = cl, intervalMinutes = interval,
                       runCount = runs, retryCount = retries, retryDelaySec = delay,
                       running = False, stopChan = ch, wg = 0,
                       apiCalls = Map.empty, apiOrder = []\<rparr>;
                 s1 = RegisterAPI ''SendMessage'' (callSendMessage s0) s0;
                 s2 = RegisterAPI ''SendGIF'' (callSendGIF s0) s1;
                 s3 = RegisterAPI ''SendVoice'' (callSendVoice s0) s2;
                 s4 = RegisterAPI ''SendVideo'' (callSendVideo s0) s3;
                 s5 = RegisterAPI ''GetUpdates'' (callGetUpdates s0) s4
             in (Inr s5, w2\<lparr>logs := logs w2 @ [LogInit cid]\<rparr>)))"

subsection \<open>Start, Stop, IsRunning\<close>

text \<open>
  Each method holds the mutex for its critical section, so in the model a method is one
  step on the scheduler and the world. A call that cannot return on its own is a value:
  \<open>Parks\<close> is a caller held in \<open>wg.Wait()\<close> until other goroutines bring the counter to
  zero, \<open>Panics\<close> is a run-time panic; both carry the state left behind.
\<close>

datatype 'a exit = Returns 'a | Parks 'a | Panics 'a

fun exit_state :: "'a exit \<Rightarrow> 'a" where
  "exit_state (Returns x) = x"
| "exit_state (Parks x) = x"
| "exit_state (Panics x) = x"

definition emoji_stop :: string where
  "emoji_stop = [CHR 0xF0, CHR 0x9F, CHR 0x9B, CHR 0x91]"

definition emoji_check :: string where
  "emoji_check = [CHR 0xE2, CHR 0x9C, CHR 0x85]"

definition Start :: "scheduler \<Rightarrow> world \<Rightarrow> err option \<times> scheduler \<times> world" where
  "Start s w =
     (if running s then (Some (Errorf ''scheduler already running''), s, w)
      else
        (let (ch, w1) = make_chan w;
             s1 = s\<lparr>running := True, stopChan := ch, wg := wg s + 1\<rparr>;
             w2 = logTerminal ''INF'' (emoji_rocket @ '' Scheduler started'') w1
         in (None, s1, w2\<lparr>spawned := spawned w2 + 1\<rparr>)))"

definition Stop :: "scheduler \<Rightarrow> world \<Rightarrow> (scheduler \<times> world) exit" where
  "Stop s w =
     (if \<not> running s then Returns (s, w)
      else if \<not> is_open w (stopChan s) then Panics (s\<lparr>running := False\<rparr>, w)
      else
        (let s1 = s\<lparr>running := False\<rparr>;
             w1 = close_chan (stopChan s) w;
             w2 = logTerminal ''INF'' (emoji_stop @ '' Scheduler stopping...'') w1
         in if wg s1 = 0
            then Returns (s1, logTerminal ''INF'' (emoji_check @ '' Scheduler stopped'') w2)
            else Parks (s1, w2)))"

definition IsRunning :: "scheduler \<Rightarrow> bool" where
  "IsRunning s = running s"

text \<open>While the scheduler is running, its stop channel is an open one.\<close>

definition chan_ok :: "scheduler \<Rightarrow> world \<Rightarrow> bool" where
  "chan_ok s w = (if running s then is_open w (stopChan s) else True)"

subsection \<open>The stop signal as the loop sees it\<close>

text \<open>
  The functions below are the run loop's goroutine. What another goroutine does reaches it
  only through the scheduler's fields and the stop channel, and it looks at them at its
  \<open>select\<close> statements and when it calls \<open>Stop\<close> itself. \<open>sync\<close> brings the state up
  to date at such a point: if the instant \<open>extStop\<close> of the other caller's \<open>Stop\<close> has
  come, that call has run its critical section (what becomes of that caller afterwards
  is not followed).
\<close>

definition sync :: "scheduler \<Rightarrow> world \<Rightarrow> scheduler \<times> world" where
  "sync s w =
     (case extStop w of
        None \<Rightarrow> (s, w)
      | Some T \<Rightarrow>
          if T \<le> now (env w) then exit_state (Stop s (w\<lparr>extStop := None\<rparr>)) else (s, w))"

text \<open>
  The stop signal is raised: the stop channel is closed, or the \<open>Stop\<close> of another
  goroutine on the running scheduler is due.
\<close>

definition stop_raised :: "scheduler \<Rightarrow> world \<Rightarrow> bool" where
  "stop_raised s w =
     (closed w (stopChan s)
      \<or> (running s \<and> is_open w (stopChan s)
          \<and> (case extStop w of Some T \<Rightarrow> T \<le> now (env w) | None \<Rightarrow> False)))"

text \<open>The clock moves forward only.\<close>

definition advance_to :: "int \<Rightarrow> world \<Rightarrow> world" where
  "advance_to t w = w\<lparr>env := (env w)\<lparr>now := max t (now (env w))\<rparr>\<rparr>"

text \<open>
  \<open>select { case <-timer: ... case <-s.stopChan: ... }\<close> with a timer of \<open>d\<close>
  nanoseconds; the result is \<open>True\<close> for the stop case. A closed channel is ready at
  once and a timer of no positive duration too; when both cases are ready at the same
  instant Go picks either, and \<open>stopFirst\<close> says which. Otherwise the stop case is taken
  if the channel is closed before the timer fires, at the instant it is closed.
\<close>

definition await :: "int \<Rightarrow> scheduler \<Rightarrow> world \<Rightarrow> bool \<times> scheduler \<times> world" where
  "await d s w =
     (let (s1, w1) = sync s w in
      if closed w1 (stopChan s1) then
        (if d \<le> 0 \<and> \<not> stopFirst w1 then (False, s1, w1) else (True, s1, w1))
      else
        (case extStop w1 of
           None \<Rightarrow> (False, s1, advance_to (now (env w1) + d) w1)
         | Some T \<Rightarrow>
             if T < now (env w1) + d \<or> (T = now (env w1) + d \<and> stopFirst w1) then
               (let (s2, w2) = sync s1 (advance_to T w1) in
                if closed w2 (stopChan s2) then (True, s2, w2)
                else (False, s2, advance_to (now (env w1) + d) w2))
             else (False, s1, advance_to (now (env w1) + d) w1)))"

subsection \<open>The retry executor\<close>

text \<open>
  \<open>time.Duration(float64(s.retryDelaySec) * math.Pow(2, float64(attempt))) * time.Second\<close>,
  in nanoseconds. The float product is a whole number of seconds, exact while it fits the
  mantissa, and the conversion to \<open>Duration\<close> keeps it while it is below \<open>2^63\<close>; the
  multiplication by \<open>time.Second\<close> is an \<open>int64\<close> product and wraps.
\<close>

definition wrap64 :: "int \<Rightarrow> int" where
  "wrap64 x = (x + 2 ^ 63) mod 2 ^ 64 - 2 ^ 63"

definition backoff :: "scheduler \<Rightarrow> int \<Rightarrow> int" where
  "backoff s attempt = wrap64 (retryDelaySec s * 2 ^ nat attempt * 1000000000)"

definition emoji_warning :: string where
  "emoji_warning = [CHR 0xE2, CHR 0x9A, CHR 0xA0, CHR 0xEF, CHR 0xB8, CHR 0x8F]"

definition attempt_failed :: "string \<Rightarrow> int \<Rightarrow> int \<Rightarrow> err \<Rightarrow> string" where
  "attempt_failed apiName k n x =
     emoji_warning @ '' '' @ apiName @ '' attempt '' @ itoa k @ ''/'' @ itoa n
       @ '' failed: '' @ Error x"

text \<open>
  The loop of \<open>callWithRetry\<close>, entered at \<open>attempt\<close> with the loop variables \<open>status\<close>
  and \<open>lastErr\<close>. Each call of the operation and each backoff wait entered is added to
  the trace.
\<close>

function callWithRetry_from ::
  "string \<Rightarrow> apiCallFunc \<Rightarrow> int \<Rightarrow> int \<Rightarrow> err option \<Rightarrow> scheduler \<Rightarrow> world
     \<Rightarrow> result \<times> scheduler \<times> world" where
  "callWithRetry_from apiName fn attempt status lastErr s w =
     (if attempt \<le> retryCount s then
        (let (s1, w1) = sync s w in
         if closed w1 (stopChan s1) then (('''', 0, Some (Errorf ''stopped'')), s1, w1)
         else
           (let ((res, st, er), e) = fn (env w1);
                w2 = w1\<lparr>env := e, trace := trace w1 @ [Invoked apiName attempt st er]\<rparr>
            in case er of
                 None \<Rightarrow> ((res, st, None), s1, w2)
               | Some x \<Rightarrow>
                   (let w3 = logTerminal ''ERR'' (attempt_failed apiName (attempt + 1) (retryCount s1 + 1) x) w2;
                        delay = backoff s1 attempt;
                        (stopped, s4, w4) = await delay s1 (w3\<lparr>trace := trace w3 @ [Backoff attempt delay]\<rparr>)
                    in if stopped then (('''', st, Some (Errorf ''stopped during retry'')), s4, w4)
                       else callWithRetry_from apiName fn (attempt + 1) st (Some x) s4 w4)))
      else (('''', status, lastErr), s, w))"
  by pat_completeness auto
termination
proof -
  have st: "retryCount (fst (exit_state (Stop s w))) = retryCount s" for s w
    by (simp add: Stop_def Let_def)
  have sy: "retryCount s' = retryCount s" if "(s', w') = sync s w" for s s' w w'
    using that st [of s "w\<lparr>extStop := None\<rparr>"]
    by (auto simp: sync_def split: option.splits if_splits) (metis fst_conv)
  have aw: "retryCount s' = retryCount s" if "(b, s', w') = await d s w" for b d s s' w w'
    using that
    by (auto simp: await_def Let_def split: prod.splits option.splits if_splits dest!: sy [OF sym])
  show ?thesis
    apply (relation "measure (\<lambda>(apiName, fn, attempt, status, lastErr, s, w). nat (retryCount s + 1 - attempt))")
     apply simp
    apply (auto dest!: sy aw)
    done
qed

definition callWithRetry ::
  "string \<Rightarrow> apiCallFunc \<Rightarrow> scheduler \<Rightarrow> world \<Rightarrow> result \<times> scheduler \<times> world" where
  "callWithRetry apiName fn s w = callWithRetry_from apiName fn 0 0 None s w"

subsection \<open>One cycle\<close>

text \<open>
  \<open>runOnce\<close> walks \<open>s.apiOrder\<close>; printing to the terminal is left out, the record
  written to the logger and the notification sent through the client are kept. A name
  without an entry in \<open>s.apiCalls\<close> would give the nil function, whose call panics;
  \<open>RegisterAPI\<close> stores an entry with every name it appends.
\<close>

definition outcome_msg :: "result \<Rightarrow> string" where
  "outcome_msg r =
     (case r of
        (res, status, Some x) \<Rightarrow> Error x @ '' (status='' @ itoa status @ '')''
      | (res, status, None) \<Rightarrow> res @ '' (status='' @ itoa status @ '')'')"

fun runOnce_from :: "nat \<Rightarrow> string list \<Rightarrow> scheduler \<Rightarrow> world \<Rightarrow> (scheduler \<times> world) exit" where
  "runOnce_from i [] s w = Returns (s, w)"
| "runOnce_from i (apiName # rest) s w =
     (case apiCalls s apiName of
        None \<Rightarrow> Panics (s, w)
      | Some fn \<Rightarrow>
          (let (r, s1, w1) = callWithRetry apiName fn s w;
               msg = outcome_msg r;
               w2 = w1\<lparr>logs := logs w1 @ [LogOutcome apiName i msg]\<rparr>;
               (s3, w3) = sync s1 w2
           in if closed w3 (stopChan s3) then Returns (s3, w3)
              else
                (let (_, e) = client_call (CSendMessage (chatID s3) (apiName @ '': '' @ msg)) (env w3)
                 in runOnce_from (Suc i) rest s3 (w3\<lparr>env := e\<rparr>))))"

definition runOnce :: "scheduler \<Rightarrow> world \<Rightarrow> (scheduler \<times> world) exit" where
  "runOnce s w = runOnce_from 0 (apiOrder s) s w"

subsection \<open>The run loop\<close>

text \<open>
  \<open>time.Duration(s.intervalMinutes * float64(time.Minute))\<close>: the conversion truncates
  toward zero.
\<close>

definition trunc :: "real \<Rightarrow> int" where
  "trunc x = (if 0 \<le> x then \<lfloor>x\<rfloor> else \<lceil>x\<rceil>)"

definition interval :: "scheduler \<Rightarrow> int" where
  "interval s = trunc (intervalMinutes s * 60000000000)"

text \<open>
  Every way out of \<open>runLoop\<close> runs the deferred \<open>s.wg.Done()\<close>, which panics when the
  counter becomes negative.
\<close>

definition leave :: "bool \<Rightarrow> int \<Rightarrow> scheduler \<Rightarrow> world \<Rightarrow> (int \<times> scheduler \<times> world) exit" where
  "leave panicking count s w =
     (let s1 = s\<lparr>wg := wg s - 1\<rparr>
      in if panicking \<or> wg s1 < 0 then Panics (count, s1, w) else Returns (count, s1, w))"

definition emoji_square :: string where
  "emoji_square = [CHR 0xE2, CHR 0x8F, CHR 0xB9]"

definition emoji_flag :: string where
  "emoji_flag = [CHR 0xF0, CHR 0x9F, CHR 0x8F, CHR 0x81]"

text \<open>
  The \<open>for\<close> loop of \<open>runLoop\<close> with \<open>count\<close> cycles done. With no run count and no stop
  it runs for ever, which is the value \<open>None\<close>. A result carries the number of cycles
  run.
\<close>

partial_function (option) runLoop_wait ::
  "int \<Rightarrow> int \<Rightarrow> scheduler \<Rightarrow> world \<Rightarrow> (int \<times> scheduler \<times> world) exit option" where
  "runLoop_wait ival count s w =
     (let (stopped, s1, w1) = await ival s w in
      if stopped then
        Some (leave False count s1
                (logTerminal ''INF'' (emoji_square @ '' Received stop signal, exiting runLoop'') w1))
      else
        (case runOnce s1 w1 of
           Panics (s2, w2) \<Rightarrow> Some (leave True count s2 w2)
         | Parks (s2, w2) \<Rightarrow> Some (Parks (count, s2, w2))
         | Returns (s2, w2) \<Rightarrow>
             if runCount s2 > 0 \<and> count + 1 \<ge> runCount s2 then
               (let w3 = logTerminal ''INF''
                           (emoji_flag @ '' Reached runCount limit '' @ itoa (runCount s2)
                              @ '', stopping loop'') w2;
                    (s4, w4) = sync s2 w3
                in case Stop s4 w4 of
                     Returns (s5, w5) \<Rightarrow> Some (leave False (count + 1) s5 w5)
                   | Parks (s5, w5) \<Rightarrow> Some (Parks (count + 1, s5, w5))
                   | Panics (s5, w5) \<Rightarrow> Some (leave True (count + 1) s5 w5))
             else runLoop_wait ival (count + 1) s2 w2))"

definition runLoop :: "scheduler \<Rightarrow> world \<Rightarrow> (int \<times> scheduler \<times> world) exit option" where
  "runLoop s w =
     (case runOnce s w of
        Panics (s1, w1) \<Rightarrow> Some (leave True 0 s1 w1)
      | Parks (s1, w1) \<Rightarrow> Some (Parks (0, s1, w1))
      | Returns (s1, w1) \<Rightarrow> runLoop_wait (interval s1) 1 s1 w1)"

subsection \<open>Reading a run back\<close>

text \<open>The attempts recorded in a trace: attempt index, status and failure of each call.\<close>

fun invocations :: "event list \<Rightarrow> (int \<times> int \<times> err option) list" where
  "invocations [] = []"
| "invocations (Invoked a k st er # xs) = (k, st, er) # invocations xs"
| "invocations (Backoff k d # xs) = invocations xs"

text \<open>An operation that returns a failure whatever the environment.\<close>

definition always_fails :: "apiCallFunc \<Rightarrow> bool" where
  "always_fails fn = (\<forall>e. snd (snd (fst (fn e))) \<noteq> None)"

text \<open>The names of the cycle outcome records in a log, in the order written.\<close>

fun outcome_names :: "log_entry list \<Rightarrow> string list" where
  "outcome_names [] = []"
| "outcome_names (LogOutcome a i m # xs) = a # outcome_names xs"
| "outcome_names (LogTerminal lv m # xs) = outcome_names xs"
| "outcome_names (LogInit c # xs) = outcome_names xs"

subsection \<open>A concrete environment\<close>

text \<open>
  An environment in which no media file exists, every file opens for appending and the
  messaging API answers 200 after a millisecond; an operation \<open>Ping\<close> that always fails
  and one that always succeeds; a scheduler that has \<open>Ping\<close> registered and has been
  started, with the world it runs in, and the same world after a stop.
\<close>

definition example_env :: env where
  "example_env =
     \<lparr>now = 0, timeText = (\<lambda>t. ''2024-01-01T00:00:00Z''),
      fileExists = (\<lambda>p. False), fileOpens = (\<lambda>p. True),
      remote = (\<lambda>k c. \<lparr>body = ''{}'', code = 200, failure = None, latency = 1000000\<rparr>),
      calls = [], decode = (\<lambda>b. Inr (True, 0))\<rparr>"

definition example_world :: world where
  "example_world =
     \<lparr>env = example_env, chans = [], extStop = None, stopFirst = True, logs = [],
      spawned = 0, trace = []\<rparr>"

definition failing :: apiCallFunc where
  "failing e = (('''', 500, Some (APIError ''Ping'' 500 ''unreachable'')), e\<lparr>now := now e + 1000000\<rparr>)"

definition example_scheduler :: scheduler where
  "example_scheduler =
     \<lparr>chatID = 42, client = ''token'', intervalMinutes = 5, runCount = 1, retryCount = 2,
      retryDelaySec = 1, running = True, stopChan = 0, wg = 1,
      apiCalls = [''Ping'' \<mapsto> failing], apiOrder = [''Ping'']\<rparr>"

definition running_world :: world where
  "running_world = example_world\<lparr>chans := [False], spawned := 1\<rparr>"

text \<open>
  The scheduler as \<open>main\<close> builds it (interval 5 minutes, 2 retries, base delay 5
  seconds), with the given run count, and started.
\<close>

definition started_for :: "int \<Rightarrow> world \<Rightarrow> (scheduler \<times> world) option" where
  "started_for runs w =
     (case NewScheduler ''42'' ''token'' 5 runs 2 5 ''logs/api_check.log'' w of
        (Inl _, _) \<Rightarrow> None
      | (Inr s, w1) \<Rightarrow>
          (case Start s w1 of
             (Some _, _, _) \<Rightarrow> None
           | (None, s2, w2) \<Rightarrow> Some (s2, w2)))"

definition succeeding :: apiCallFunc where
  "succeeding e = ((''pong'', 200, None), e\<lparr>now := now e + 1000000\<rparr>)"

definition stopped_world :: world where
  "stopped_world = running_world\<lparr>chans := [True]\<rparr>"

section \<open>Properties\<close>

subsection \<open>Steps of the retry loop\<close>

declare callWithRetry_from.simps [simp del]

lemmas example_defs =
  example_scheduler_def running_world_def stopped_world_def example_world_def example_env_def

lemma invocations_append: "invocations (xs @ ys) = invocations xs @ invocations ys"
  by (induction xs rule: invocations.induct) auto

lemma outcome_names_append: "outcome_names (xs @ ys) = outcome_names xs @ outcome_names ys"
  by (induction xs rule: outcome_names.induct) auto

lemma closed_upd [simp]:
  "closed (w\<lparr>env := e\<rparr>) c = closed w c"
  "closed (w\<lparr>trace := tr\<rparr>) c = closed w c"
  "closed (w\<lparr>logs := lg\<rparr>) c = closed w c"
  "closed (w\<lparr>extStop := x\<rparr>) c = closed w c"
  "closed (logTerminal lv m w) c = closed w c"
  "closed (advance_to t w) c = closed w c"
  by (simp_all add: closed_def logTerminal_def advance_to_def)

lemma extStop_upd [simp]:
  "extStop (logTerminal lv m w) = extStop w"
  "extStop (advance_to t w) = extStop w"
  by (simp_all add: logTerminal_def advance_to_def)

lemma is_open_not_closed: "is_open w c \<Longrightarrow> \<not> closed w c"
  by (simp add: is_open_def closed_def)

lemma sync_quiet: "extStop w = None \<Longrightarrow> sync s w = (s, w)"
  by (simp add: sync_def)

lemma sync_early:
  "extStop w = Some T \<Longrightarrow> now (env w) < T \<Longrightarrow> sync s w = (s, w)"
  by (simp add: sync_def)

lemma sync_keeps:
  "sync s w = (s', w') \<Longrightarrow>
     stopChan s' = stopChan s \<and> trace w' = trace w \<and> env w' = env w
       \<and> (closed w c \<longrightarrow> closed w' c)"
  by (auto simp: sync_def Stop_def Let_def closed_def is_open_def close_chan_def logTerminal_def
           nth_list_update
           split: option.splits if_splits)

lemma sync_delivers:
  assumes "extStop w = Some T" "T \<le> now (env w)" "running s" "is_open w (stopChan s)"
  shows "\<exists>w'. sync s w = (s\<lparr>running := False\<rparr>, w') \<and> closed w' (stopChan s)
           \<and> trace w' = trace w \<and> env w' = env w \<and> extStop w' = None"
  using assms
  by (auto simp: sync_def Stop_def Let_def closed_def is_open_def close_chan_def logTerminal_def)

lemma sync_stop_raised:
  assumes "stop_raised s w"
  shows "\<exists>s1 w1. sync s w = (s1, w1) \<and> closed w1 (stopChan s1) \<and> trace w1 = trace w
           \<and> env w1 = env w"
proof (cases "closed w (stopChan s)")
  case True
  obtain s1 w1 where sy: "sync s w = (s1, w1)" by (cases "sync s w")
  from sync_keeps [OF sy, of "stopChan s"] True sy show ?thesis by simp
next
  case False
  with assms obtain T where "extStop w = Some T" "T \<le> now (env w)" "running s"
    "is_open w (stopChan s)"
    by (auto simp: stop_raised_def split: option.splits)
  from sync_delivers [OF this] show ?thesis by auto
qed

lemma await_quiet:
  "extStop w = None \<Longrightarrow> \<not> closed w (stopChan s) \<Longrightarrow>
     await d s w = (False, s, advance_to (now (env w) + d) w)"
  by (simp add: await_def sync_quiet)

lemma await_interrupted:
  assumes "extStop w = Some T" "now (env w) < T" "T < now (env w) + d"
    and "running s" "is_open w (stopChan s)"
  shows "\<exists>w'. await d s w = (True, s\<lparr>running := False\<rparr>, w') \<and> closed w' (stopChan s)
           \<and> now (env w') = T \<and> trace w' = trace w \<and> calls (env w') = calls (env w)"
proof -
  let ?w = "advance_to T w"
  have a: "extStop ?w = Some T" "T \<le> now (env ?w)" "is_open ?w (stopChan s)"
    "now (env ?w) = T" "trace ?w = trace w" "calls (env ?w) = calls (env w)"
    using assms by (simp_all add: advance_to_def is_open_def)
  from sync_delivers [OF a(1,2) assms(4) a(3)]
  obtain w' where w': "sync s ?w = (s\<lparr>running := False\<rparr>, w')" "closed w' (stopChan s)"
    "trace w' = trace ?w" "env w' = env ?w" by blast
  have "await d s w = (True, s\<lparr>running := False\<rparr>, w')"
    using assms w' by (simp add: await_def sync_early is_open_not_closed)
  with w' a show ?thesis by auto
qed

lemma retry_exhausted:
  "\<not> k \<le> retryCount s \<Longrightarrow> callWithRetry_from a fn k st le s w = (('''', st, le), s, w)"
  by (simp add: callWithRetry_from.simps)

lemma retry_success:
  assumes "k \<le> retryCount s" "extStop w = None" "\<not> closed w (stopChan s)"
    and "fn (env w) = ((res, sc, None), e)"
  shows "callWithRetry_from a fn k st le s w =
           ((res, sc, None), s, w\<lparr>env := e, trace := trace w @ [Invoked a k sc None]\<rparr>)"
  using assms by (subst callWithRetry_from.simps) (simp add: sync_quiet)

lemma retry_failure:
  assumes "k \<le> retryCount s" "extStop w = None" "\<not> closed w (stopChan s)"
    and "fn (env w) = ((res, sc, Some x), e)"
  shows "\<exists>w4. callWithRetry_from a fn k st le s w = callWithRetry_from a fn (k + 1) sc (Some x) s w4
           \<and> extStop w4 = None \<and> chans w4 = chans w \<and> stopFirst w4 = stopFirst w
           \<and> spawned w4 = spawned w
           \<and> trace w4 = trace w @ [Invoked a k sc (Some x), Backoff k (backoff s k)]
           \<and> logs w4 = logs w @ [LogTerminal ''ERR'' (attempt_failed a (k + 1) (retryCount s + 1) x)]
           \<and> env w4 = e\<lparr>now := max (now e + backoff s k) (now e)\<rparr>"
proof -
  let ?w3 = "(logTerminal ''ERR'' (attempt_failed a (k + 1) (retryCount s + 1) x)
               (w\<lparr>env := e, trace := trace w @ [Invoked a k sc (Some x)]\<rparr>))"
  let ?w3' = "?w3\<lparr>trace := trace ?w3 @ [Backoff k (backoff s k)]\<rparr>"
  let ?w4 = "advance_to (now (env ?w3') + backoff s k) ?w3'"
  have "callWithRetry_from a fn k st le s w = callWithRetry_from a fn (k + 1) sc (Some x) s ?w4"
    using assms
    by (subst callWithRetry_from.simps) (simp add: sync_quiet await_quiet Let_def)
  moreover have "extStop ?w4 = None" "chans ?w4 = chans w" "stopFirst ?w4 = stopFirst w"
    "spawned ?w4 = spawned w"
    "trace ?w4 = trace w @ [Invoked a k sc (Some x), Backoff k (backoff s k)]"
    "logs ?w4 = logs w @ [LogTerminal ''ERR'' (attempt_failed a (k + 1) (retryCount s + 1) x)]"
    "env ?w4 = e\<lparr>now := max (now e + backoff s k) (now e)\<rparr>"
    using assms by (simp_all add: logTerminal_def advance_to_def)
  ultimately show ?thesis by blast
qed

lemma retry_all_fail:
  assumes "always_fails fn"
  shows "\<lbrakk>m = nat (retryCount s + 1 - k); 0 \<le> k; k \<le> retryCount s + 1;
          extStop w = None; \<not> closed w (stopChan s)\<rbrakk> \<Longrightarrow>
     \<exists>w' inv st' le'. callWithRetry_from a fn k st le s w = (('''', st', le'), s, w')
        \<and> invocations (trace w') = invocations (trace w) @ inv
        \<and> map fst inv = [k..retryCount s]
        \<and> (st', le') = (if inv = [] then (st, le) else snd (last inv))
        \<and> (\<forall>i \<in> set inv. snd (snd i) \<noteq> None)"
proof (induction m arbitrary: k st le w)
  case 0
  then have "\<not> k \<le> retryCount s" by simp
  then show ?case using 0 by (simp add: retry_exhausted)
next
  case (Suc m)
  then have k: "k \<le> retryCount s" by simp
  obtain res st1 er e where f: "fn (env w) = ((res, st1, er), e)"
    by (metis prod_cases3 surj_pair)
  with assms(1) obtain x where er: "er = Some x"
    by (auto simp: always_fails_def dest!: spec [of _ "env w"])
  from retry_failure [where k=k and s=s and w=w and fn=fn and res=res and sc=st1 and x=x
      and e=e and a=a and st=st and le=le] k Suc.prems(4,5) f er
  obtain w4 where w4: "callWithRetry_from a fn k st le s w = callWithRetry_from a fn (k + 1) st1 (Some x) s w4"
    "extStop w4 = None" "chans w4 = chans w"
    "trace w4 = trace w @ [Invoked a k st1 (Some x), Backoff k (backoff s k)]"
    by blast
  have nc: "\<not> closed w4 (stopChan s)" using Suc.prems(5) w4(3) by (simp add: closed_def)
  have "m = nat (retryCount s + 1 - (k + 1))" using Suc.prems(1) by simp
  from Suc.IH [OF this _ _ w4(2) nc, of st1 "Some x"] k Suc.prems(2)
  obtain w' inv st' le' where r:
    "callWithRetry_from a fn (k + 1) st1 (Some x) s w4 = (('''', st', le'), s, w')"
    "invocations (trace w') = invocations (trace w4) @ inv"
    "map fst inv = [k + 1..retryCount s]"
    "(st', le') = (if inv = [] then (st1, Some x) else snd (last inv))"
    "\<forall>i \<in> set inv. snd (snd i) \<noteq> None"
    by auto
  let ?inv = "(k, st1, Some x) # inv"
  have "invocations (trace w') = invocations (trace w) @ ?inv"
    using r(2) w4(4) by (simp add: invocations_append)
  moreover have "map fst ?inv = [k..retryCount s]"
    using r(3) k by (simp add: upto_rec1 [of k])
  moreover have "(st', le') = (if ?inv = [] then (st, le) else snd (last ?inv))"
    using r(4) by simp
  moreover have "\<forall>i \<in> set ?inv. snd (snd i) \<noteq> None" using r(5) by simp
  ultimately show ?case using w4(1) r(1) by (metis (no_types, lifting))
qed

lemma callWithRetry_from_quiet:
  "\<lbrakk>m = nat (retryCount s + 1 - k); extStop w = None; \<not> closed w (stopChan s)\<rbrakk> \<Longrightarrow>
     \<exists>r w'. callWithRetry_from a fn k st le s w = (r, s, w')
        \<and> extStop w' = None \<and> chans w' = chans w
        \<and> outcome_names (logs w') = outcome_names (logs w)"
proof (induction m arbitrary: k st le w)
  case 0
  then have "\<not> k \<le> retryCount s" by simp
  then show ?case using 0 by (simp add: retry_exhausted)
next
  case (Suc m)
  then have k: "k \<le> retryCount s" by simp
  obtain res st1 er e where f: "fn (env w) = ((res, st1, er), e)"
    by (metis prod_cases3 surj_pair)
  show ?case
  proof (cases er)
    case None
    from retry_success [where k=k and s=s and w=w and fn=fn and res=res and sc=st1
        and e=e and a=a and st=st and le=le] k Suc.prems(2,3) f None
    show ?thesis by simp
  next
    case (Some x)
    from retry_failure [where k=k and s=s and w=w and fn=fn and res=res and sc=st1 and x=x
        and e=e and a=a and st=st and le=le] k Suc.prems(2,3) f Some
    obtain w4 where w4:
      "callWithRetry_from a fn k st le s w = callWithRetry_from a fn (k + 1) st1 (Some x) s w4"
      "extStop w4 = None" "chans w4 = chans w"
      "logs w4 = logs w @ [LogTerminal ''ERR'' (attempt_failed a (k + 1) (retryCount s + 1) x)]"
      by blast
    have nc: "\<not> closed w4 (stopChan s)" using Suc.prems(3) w4(3) by (simp add: closed_def)
    have "m = nat (retryCount s + 1 - (k + 1))" using Suc.prems(1) by simp
    from Suc.IH [OF this w4(2) nc, of st1 "Some x"] w4 show ?thesis
      by (auto simp: outcome_names_append)
  qed
qed

lemma backoff_seconds:
  assumes "0 \<le> retryDelaySec s" "retryDelaySec s * 2 ^ nat k * 1000000000 < 2 ^ 63"
  shows "backoff s k = retryDelaySec s * 2 ^ nat k * 1000000000"
proof -
  have "0 \<le> retryDelaySec s * 2 ^ nat k * 1000000000" using assms(1) by simp
  with assms(2) show ?thesis by (simp add: backoff_def wrap64_def)
qed

lemma backoff_example: "backoff example_scheduler 0 = 1000000000"
  "backoff example_scheduler 1 = 2000000000" "backoff example_scheduler 2 = 4000000000"
  by (simp_all add: backoff_def wrap64_def example_scheduler_def)

subsection \<open>The retry executor\<close>

text \<open>
  Claim C9. If the stop signal is already raised when the retry executor is entered (the
  stop channel is closed, or another goroutine's \<open>Stop\<close> on the running scheduler is
  due) and the retry count is a valid one (not negative), the executor returns the
  failure \<open>stopped\<close> with status 0 and the operation is not invoked: the trace gains
  no event and the environment, with its record of client calls, is as before.
\<close>

theorem callWithRetry_stopped_before_first_attempt:
  assumes "stop_raised s w" and "0 \<le> retryCount s"
  shows "\<exists>s' w'. callWithRetry apiName fn s w = (('''', 0, Some (Errorf ''stopped'')), s', w')
           \<and> trace w' = trace w \<and> env w' = env w"
proof -
  from sync_stop_raised [OF assms(1)]
  obtain s1 w1 where k: "sync s w = (s1, w1)" "closed w1 (stopChan s1)" "trace w1 = trace w"
    "env w1 = env w" by blast
  have "callWithRetry apiName fn s w = (('''', 0, Some (Errorf ''stopped'')), s1, w1)"
    unfolding callWithRetry_def using assms(2) k(1,2)
    by (subst callWithRetry_from.simps) simp
  with k show ?thesis by blast
qed

theorem callWithRetry_stopped_before_first_attempt_witness:
  "stop_raised example_scheduler (running_world\<lparr>extStop := Some 0\<rparr>)
   \<and> stop_raised (example_scheduler\<lparr>running := False\<rparr>) stopped_world
   \<and> 0 \<le> retryCount example_scheduler
   \<and> (\<exists>s' w'. callWithRetry ''Ping'' failing example_scheduler (running_world\<lparr>extStop := Some 0\<rparr>)
                 = (('''', 0, Some (Errorf ''stopped'')), s', w')
          \<and> trace w' = [] \<and> calls (env w') = [])
   \<and> (\<exists>s' w'. callWithRetry ''Ping'' failing (example_scheduler\<lparr>running := False\<rparr>) stopped_world
                 = (('''', 0, Some (Errorf ''stopped'')), s', w')
          \<and> trace w' = [] \<and> calls (env w') = [])"
proof -
  have h: "stop_raised example_scheduler (running_world\<lparr>extStop := Some 0\<rparr>)"
    "stop_raised (example_scheduler\<lparr>running := False\<rparr>) stopped_world"
    "0 \<le> retryCount example_scheduler"
    "0 \<le> retryCount (example_scheduler\<lparr>running := False\<rparr>)"
    "trace (running_world\<lparr>extStop := Some 0\<rparr>) = []" "trace stopped_world = []"
    "calls (env (running_world\<lparr>extStop := Some 0\<rparr>)) = []" "calls (env stopped_world) = []"
    by (simp_all add: stop_raised_def closed_def is_open_def example_defs)
  from callWithRetry_stopped_before_first_attempt [OF h(1,3), of "''Ping''" failing]
    callWithRetry_stopped_before_first_attempt [OF h(2,4), of "''Ping''" failing] h
  show ?thesis by auto
qed

text \<open>
  Claim C5. Attempt \<open>k\<close> of an operation has just failed (the call returned at time
  \<open>now e\<close>) and another goroutine stops the scheduler at an instant \<open>T\<close> inside the
  backoff wait that follows, \<open>now e < T < now e + backoff s k\<close>. Then the executor
  returns the failure \<open>stopped during retry\<close> at time \<open>T\<close>, strictly before the
  backoff would have elapsed, and the failed attempt is the only call it made: there is
  no next attempt.
\<close>

theorem callWithRetry_stopped_during_backoff:
  assumes "k \<le> retryCount s" and "running s" and "is_open w (stopChan s)"
    and "extStop w = Some T" and "now (env w) < T"
    and "fn (env w) = ((res, sc, Some x), e)"
    and "now e < T" and "T < now e + backoff s k"
  shows "\<exists>s' w'. callWithRetry_from apiName fn k st le s w
                   = (('''', sc, Some (Errorf ''stopped during retry'')), s', w')
           \<and> now (env w') = T \<and> now (env w') < now e + backoff s k
           \<and> invocations (trace w') = invocations (trace w) @ [(k, sc, Some x)]
           \<and> closed w' (stopChan s) \<and> \<not> running s'"
proof -
  let ?w3 = "(logTerminal ''ERR'' (attempt_failed apiName (k + 1) (retryCount s + 1) x)
               (w\<lparr>env := e, trace := trace w @ [Invoked apiName k sc (Some x)]\<rparr>))"
  let ?w3' = "?w3\<lparr>trace := trace ?w3 @ [Backoff k (backoff s k)]\<rparr>"
  have b: "extStop ?w3' = Some T" "now (env ?w3') < T" "T < now (env ?w3') + backoff s k"
    "is_open ?w3' (stopChan s)"
    "trace ?w3' = trace w @ [Invoked apiName k sc (Some x), Backoff k (backoff s k)]"
    using assms by (simp_all add: logTerminal_def is_open_def)
  from await_interrupted [OF b(1,2,3) assms(2) b(4)]
  obtain w' where w': "await (backoff s k) s ?w3' = (True, s\<lparr>running := False\<rparr>, w')"
    "closed w' (stopChan s)" "now (env w') = T" "trace w' = trace ?w3'" by blast
  have "callWithRetry_from apiName fn k st le s w
          = (('''', sc, Some (Errorf ''stopped during retry'')), s\<lparr>running := False\<rparr>, w')"
    using assms(1,3,4,5,6) w'(1)
    by (subst callWithRetry_from.simps) (simp add: sync_early is_open_not_closed Let_def)
  moreover have "invocations (trace w') = invocations (trace w) @ [(k, sc, Some x)]"
    using w'(4) b(5) by (simp add: invocations_append)
  ultimately show ?thesis using w'(2,3) assms(8) by auto
qed

theorem callWithRetry_stopped_during_backoff_witness:
  "0 \<le> retryCount example_scheduler \<and> running example_scheduler
   \<and> is_open (running_world\<lparr>extStop := Some 500000000\<rparr>) (stopChan example_scheduler)
   \<and> now (env (running_world\<lparr>extStop := Some 500000000\<rparr>)) < 500000000
   \<and> now (snd (failing (env running_world))) < 500000000
   \<and> 500000000 < now (snd (failing (env running_world))) + backoff example_scheduler 0
   \<and> (\<exists>s' w'. callWithRetry_from ''Ping'' failing 0 0 None example_scheduler
                   (running_world\<lparr>extStop := Some 500000000\<rparr>)
                 = (('''', 500, Some (Errorf ''stopped during retry'')), s', w')
          \<and> now (env w') = 500000000 \<and> closed w' (stopChan example_scheduler)
          \<and> \<not> running s')"
proof -
  let ?w = "running_world\<lparr>extStop := Some 500000000\<rparr>"
  let ?e = "snd (failing (env running_world))"
  have h: "0 \<le> retryCount example_scheduler" "running example_scheduler"
    "is_open ?w (stopChan example_scheduler)" "extStop ?w = Some 500000000"
    "now (env ?w) < 500000000"
    "failing (env ?w) = (('''', 500, Some (APIError ''Ping'' 500 ''unreachable'')), ?e)"
    "now ?e < 500000000" "500000000 < now ?e + backoff example_scheduler 0"
    by (simp_all add: is_open_def failing_def backoff_def wrap64_def example_defs)
  from callWithRetry_stopped_during_backoff [where k=0 and s=example_scheduler and w="?w"
      and T=500000000 and fn=failing and res="''''" and sc=500
      and x="APIError ''Ping'' 500 ''unreachable''" and e="?e" and apiName="''Ping''"
      and st=0 and le=None] h
  show ?thesis by auto
qed

text \<open>
  Claim C4. With a retry count \<open>n \<ge> 0\<close>, an operation that fails on every call and no
  stop signal, the retry executor calls the operation exactly \<open>n + 1\<close> times and returns
  the status and the failure of the last call.
\<close>

theorem callWithRetry_exhausts_retries:
  assumes "0 \<le> retryCount s" and "always_fails fn"
    and "extStop w = None" and "\<not> closed w (stopChan s)"
  shows "\<exists>st x s' w' inv. callWithRetry apiName fn s w = (('''', st, Some x), s', w')
           \<and> invocations (trace w') = invocations (trace w) @ inv
           \<and> length inv = nat (retryCount s) + 1
           \<and> snd (last inv) = (st, Some x)"
proof -
  from retry_all_fail [OF assms(2) refl _ _ assms(3,4), of 0 apiName 0 None] assms(1)
  obtain w' inv st' le' where r:
    "callWithRetry_from apiName fn 0 0 None s w = (('''', st', le'), s, w')"
    "invocations (trace w') = invocations (trace w) @ inv"
    "map fst inv = [0..retryCount s]"
    "(st', le') = (if inv = [] then (0, None) else snd (last inv))"
    "\<forall>i \<in> set inv. snd (snd i) \<noteq> None"
    by auto
  have len: "length inv = nat (retryCount s) + 1"
    using arg_cong [OF r(3), of length] assms(1) by simp
  then have ne: "inv \<noteq> []" by auto
  with r(4) have l: "snd (last inv) = (st', le')" by simp
  from ne r(5) have "snd (snd (last inv)) \<noteq> None" by simp
  with l obtain x where "le' = Some x" by (cases le') auto
  with r(1,2) len l show ?thesis unfolding callWithRetry_def by blast
qed

theorem callWithRetry_exhausts_retries_witness:
  "0 \<le> retryCount example_scheduler \<and> always_fails failing \<and> extStop running_world = None
   \<and> \<not> closed running_world (stopChan example_scheduler)
   \<and> (\<exists>st x s' w' inv. callWithRetry ''Ping'' failing example_scheduler running_world
                          = (('''', st, Some x), s', w')
          \<and> invocations (trace w') = invocations (trace running_world) @ inv
          \<and> length inv = 3 \<and> snd (last inv) = (st, Some x))"
proof -
  have h: "0 \<le> retryCount example_scheduler" "always_fails failing" "extStop running_world = None"
    "\<not> closed running_world (stopChan example_scheduler)"
    by (simp_all add: always_fails_def failing_def closed_def example_defs)
  have "nat (retryCount example_scheduler) + 1 = 3" by (simp add: example_defs)
  with callWithRetry_exhausts_retries [OF h, of "''Ping''"] h
  show ?thesis by simp
qed

text \<open>
  Claim C3 says that the executor waits \<open>baseDelay * 2^attempt\<close> seconds after a failed
  attempt and only while retries remain. The source waits after every failed attempt, the
  last one included. With a retry count of 2, a base delay of one second and an operation
  that always fails (each call taking a millisecond), the run is three calls, each
  followed by a wait of 1, 2 and 4 seconds, and the failure is returned at 7.003 seconds:
  the wait of 4 seconds follows the final attempt.
\<close>

theorem callWithRetry_waits_after_final_attempt:
  "fst (callWithRetry ''Ping'' failing example_scheduler running_world)
     = ('''', 500, Some (APIError ''Ping'' 500 ''unreachable''))
   \<and> trace (snd (snd (callWithRetry ''Ping'' failing example_scheduler running_world)))
     = [Invoked ''Ping'' 0 500 (Some (APIError ''Ping'' 500 ''unreachable'')), Backoff 0 1000000000,
        Invoked ''Ping'' 1 500 (Some (APIError ''Ping'' 500 ''unreachable'')), Backoff 1 2000000000,
        Invoked ''Ping'' 2 500 (Some (APIError ''Ping'' 500 ''unreachable'')), Backoff 2 4000000000]
   \<and> now (env (snd (snd (callWithRetry ''Ping'' failing example_scheduler running_world))))
     = 7003000000"
  by (simp add: callWithRetry_def callWithRetry_from.simps sync_def await_def advance_to_def
        logTerminal_def closed_def backoff_example failing_def Let_def
        example_scheduler_def [THEN arg_cong [where f=retryCount]]
        example_scheduler_def [THEN arg_cong [where f=stopChan]]
        running_world_def example_world_def example_env_def)

subsection \<open>The media operations\<close>

text \<open>
  Claim C10. When its file is missing, each of \<open>callSendGIF\<close>, \<open>callSendVoice\<close> and
  \<open>callSendVideo\<close> returns its \<open>skip ... - file not found\<close> message with status 0 and
  no failure, and leaves the environment as it was, so the messaging client is not
  called. Under the retry executor (valid retry count, no stop signal) such an operation
  is called once and succeeds: nothing is logged and nothing is retried.
\<close>

theorem media_operations_skip_missing_file:
  "(\<not> fileExists e ''./uploads/happy.gif'' \<longrightarrow>
      callSendGIF s e = ((''skip sendAnimation - file not found'', 0, None), e))
   \<and> (\<not> fileExists e ''./uploads/test.ogg'' \<longrightarrow>
      callSendVoice s e = ((''skip sendVoice - file not found'', 0, None), e))
   \<and> (\<not> fileExists e ''./uploads/test_small.mp4'' \<longrightarrow>
      callSendVideo s e = ((''skip sendVideo - file not found'', 0, None), e))
   \<and> (0 \<le> retryCount s \<and> extStop w = None \<and> \<not> closed w (stopChan s) \<longrightarrow>
       (\<not> fileExists (env w) ''./uploads/happy.gif'' \<longrightarrow>
          callWithRetry ''SendGIF'' (callSendGIF s) s w
            = ((''skip sendAnimation - file not found'', 0, None), s,
               w\<lparr>trace := trace w @ [Invoked ''SendGIF'' 0 0 None]\<rparr>))
     \<and> (\<not> fileExists (env w) ''./uploads/test.ogg'' \<longrightarrow>
          callWithRetry ''SendVoice'' (callSendVoice s) s w
            = ((''skip sendVoice - file not found'', 0, None), s,
               w\<lparr>trace := trace w @ [Invoked ''SendVoice'' 0 0 None]\<rparr>))
     \<and> (\<not> fileExists (env w) ''./uploads/test_small.mp4'' \<longrightarrow>
          callWithRetry ''SendVideo'' (callSendVideo s) s w
            = ((''skip sendVideo - file not found'', 0, None), s,
               w\<lparr>trace := trace w @ [Invoked ''SendVideo'' 0 0 None]\<rparr>)))"
proof -
  have g: "callSendGIF s e = ((''skip sendAnimation - file not found'', 0, None), e)"
    if "\<not> fileExists e ''./uploads/happy.gif''" for e
    using that by (simp add: callSendGIF_def checkFileExists_def)
  have v: "callSendVoice s e = ((''skip sendVoice - file not found'', 0, None), e)"
    if "\<not> fileExists e ''./uploads/test.ogg''" for e
    using that by (simp add: callSendVoice_def checkFileExists_def)
  have m: "callSendVideo s e = ((''skip sendVideo - file not found'', 0, None), e)"
    if "\<not> fileExists e ''./uploads/test_small.mp4''" for e
    using that by (simp add: callSendVideo_def checkFileExists_def)
  have r: "callWithRetry a fn s w = ((res, 0, None), s, w\<lparr>trace := trace w @ [Invoked a 0 0 None]\<rparr>)"
    if "0 \<le> retryCount s" "extStop w = None" "\<not> closed w (stopChan s)"
      "fn (env w) = ((res, 0, None), env w)" for a fn res
    unfolding callWithRetry_def
    using retry_success [where k=0 and s=s and w=w and fn=fn and res=res and sc=0
        and e="env w" and a=a and st=0 and le=None] that
    by simp
  show ?thesis using g v m r by simp
qed

theorem media_operations_skip_missing_file_witness:
  "\<not> fileExists example_env ''./uploads/happy.gif''
   \<and> \<not> fileExists example_env ''./uploads/test.ogg''
   \<and> \<not> fileExists example_env ''./uploads/test_small.mp4''
   \<and> 0 \<le> retryCount example_scheduler \<and> extStop running_world = None
   \<and> \<not> closed running_world (stopChan example_scheduler)
   \<and> callSendGIF example_scheduler example_env
       = ((''skip sendAnimation - file not found'', 0, None), example_env)
   \<and> callSendVoice example_scheduler example_env
       = ((''skip sendVoice - file not found'', 0, None), example_env)
   \<and> callSendVideo example_scheduler example_env
       = ((''skip sendVideo - file not found'', 0, None), example_env)
   \<and> callWithRetry ''SendGIF'' (callSendGIF example_scheduler) example_scheduler running_world
       = ((''skip sendAnimation - file not found'', 0, None), example_scheduler,
          running_world\<lparr>trace := trace running_world @ [Invoked ''SendGIF'' 0 0 None]\<rparr>)"
proof -
  have h: "\<not> fileExists example_env ''./uploads/happy.gif''"
    "\<not> fileExists example_env ''./uploads/test.ogg''"
    "\<not> fileExists example_env ''./uploads/test_small.mp4''"
    "0 \<le> retryCount example_scheduler" "extStop running_world = None"
    "\<not> closed running_world (stopChan example_scheduler)"
    "env running_world = example_env"
    by (simp_all add: closed_def example_defs)
  from media_operations_skip_missing_file [of example_env example_scheduler running_world] h
  show ?thesis by simp
qed

subsection \<open>The registry and the cycle\<close>

lemma runOnce_from_quiet:
  "\<lbrakk>extStop w = None; \<not> closed w (stopChan s); set names \<subseteq> dom (apiCalls s)\<rbrakk> \<Longrightarrow>
     \<exists>w'. runOnce_from i names s w = Returns (s, w')
        \<and> extStop w' = None \<and> chans w' = chans w
        \<and> outcome_names (logs w') = outcome_names (logs w) @ names"
proof (induction names arbitrary: i w)
  case Nil
  then show ?case by simp
next
  case (Cons a names)
  then obtain fn where fn: "apiCalls s a = Some fn" by auto
  from callWithRetry_from_quiet [OF refl Cons.prems(1,2), of a fn 0 0 None]
  obtain r w1 where c: "callWithRetry a fn s w = (r, s, w1)" "extStop w1 = None"
    "chans w1 = chans w" "outcome_names (logs w1) = outcome_names (logs w)"
    unfolding callWithRetry_def by blast
  let ?w2 = "w1\<lparr>logs := logs w1 @ [LogOutcome a i (outcome_msg r)]\<rparr>"
  obtain rr e where cc:
    "client_call (CSendMessage (chatID s) (a @ '': '' @ outcome_msg r)) (env ?w2) = (rr, e)"
    by (metis surj_pair)
  let ?w3 = "?w2\<lparr>env := e\<rparr>"
  have q: "extStop ?w2 = None" "\<not> closed ?w2 (stopChan s)" "extStop ?w3 = None"
    "\<not> closed ?w3 (stopChan s)" "chans ?w3 = chans w"
    "outcome_names (logs ?w3) = outcome_names (logs w) @ [a]"
    using c Cons.prems(2) by (simp_all add: closed_def outcome_names_append)
  have step: "runOnce_from i (a # names) s w = runOnce_from (Suc i) names s ?w3"
    using fn c(1) cc q(1,2) by (simp add: sync_quiet Let_def)
  from Cons.IH [OF q(3,4), of "Suc i"] Cons.prems(3)
  obtain w' where "runOnce_from (Suc i) names s ?w3 = Returns (s, w')" "extStop w' = None"
    "chans w' = chans ?w3" "outcome_names (logs w') = outcome_names (logs ?w3) @ names"
    by auto
  with step q(5,6) show ?case by simp
qed

lemma runOnce_quiet:
  assumes "extStop w = None" "\<not> closed w (stopChan s)" "set (apiOrder s) \<subseteq> dom (apiCalls s)"
  shows "\<exists>w'. runOnce s w = Returns (s, w') \<and> extStop w' = None \<and> chans w' = chans w
           \<and> outcome_names (logs w') = outcome_names (logs w) @ apiOrder s"
  unfolding runOnce_def using runOnce_from_quiet [OF assms] .

text \<open>
  Claim C2 says that registering a name again keeps one slot for it, so that it is
  invoked once per cycle. \<open>RegisterAPI\<close> appends the name on every call: after \<open>Ping\<close>
  is registered a second time it occupies two slots, and one cycle calls it twice.
\<close>

theorem RegisterAPI_reregistered_name_has_two_slots:
  "apiOrder (RegisterAPI ''Ping'' succeeding example_scheduler) = [''Ping'', ''Ping'']
   \<and> count_list (apiOrder (RegisterAPI ''Ping'' succeeding example_scheduler)) ''Ping'' = 2
   \<and> invocations (trace (snd (exit_state
        (runOnce (RegisterAPI ''Ping'' succeeding example_scheduler) running_world))))
      = [(0, 200, None), (0, 200, None)]"
  by (simp add: RegisterAPI_def runOnce_def callWithRetry_def callWithRetry_from.simps
        sync_def closed_def succeeding_def client_call_def Let_def example_defs)

text \<open>
  Claim C2, amended. Registering a name stores the callable under it, replacing an
  earlier one, and appends the name as a new last slot; the slots that were there keep
  their positions, so a name registered \<open>k\<close> times occupies \<open>k\<close> slots. A cycle that no
  stop signal interrupts runs the retry executor once for every slot, in slot order, and
  writes one outcome record for each.
\<close>

theorem RegisterAPI_appends_slot:
  "apiCalls (RegisterAPI name fn s) name = Some fn
   \<and> apiOrder (RegisterAPI name fn s) = apiOrder s @ [name]
   \<and> take (length (apiOrder s)) (apiOrder (RegisterAPI name fn s)) = apiOrder s
   \<and> count_list (apiOrder (RegisterAPI name fn s)) name = count_list (apiOrder s) name + 1
   \<and> (extStop w = None \<and> \<not> closed w (stopChan s) \<and> set (apiOrder s) \<subseteq> dom (apiCalls s) \<longrightarrow>
        (\<exists>w'. runOnce s w = Returns (s, w')
           \<and> outcome_names (logs w') = outcome_names (logs w) @ apiOrder s))"
proof -
  have "extStop w = None \<and> \<not> closed w (stopChan s) \<and> set (apiOrder s) \<subseteq> dom (apiCalls s) \<longrightarrow>
        (\<exists>w'. runOnce s w = Returns (s, w')
           \<and> outcome_names (logs w') = outcome_names (logs w) @ apiOrder s)"
    using runOnce_quiet [of w s] by blast
  then show ?thesis by (simp add: RegisterAPI_def)
qed

theorem RegisterAPI_appends_slot_witness:
  "extStop running_world = None
   \<and> \<not> closed running_world (stopChan (RegisterAPI ''Ping'' succeeding example_scheduler))
   \<and> set (apiOrder (RegisterAPI ''Ping'' succeeding example_scheduler))
        \<subseteq> dom (apiCalls (RegisterAPI ''Ping'' succeeding example_scheduler))
   \<and> apiCalls (RegisterAPI ''Ping'' succeeding example_scheduler) ''Ping'' = Some succeeding
   \<and> count_list (apiOrder (RegisterAPI ''Ping'' succeeding example_scheduler)) ''Ping''
        = count_list (apiOrder example_scheduler) ''Ping'' + 1
   \<and> (\<exists>w'. runOnce (RegisterAPI ''Ping'' succeeding example_scheduler) running_world
               = Returns (RegisterAPI ''Ping'' succeeding example_scheduler, w')
          \<and> outcome_names (logs w') = [''Ping'', ''Ping''])"
proof -
  let ?s = "RegisterAPI ''Ping'' succeeding example_scheduler"
  have h: "extStop running_world = None" "\<not> closed running_world (stopChan ?s)"
    "set (apiOrder ?s) \<subseteq> dom (apiCalls ?s)" "apiOrder ?s = [''Ping'', ''Ping'']"
    "outcome_names (logs running_world) = []"
    by (simp_all add: RegisterAPI_def closed_def example_defs)
  from RegisterAPI_appends_slot [of "''Ping''" succeeding example_scheduler]
    RegisterAPI_appends_slot [of "''Ping''" succeeding ?s running_world] h
  show ?thesis by simp
qed

subsection \<open>The constructor\<close>

text \<open>
  Claim C8 says that construction fails when the tick interval is not greater than zero.
  The constructor does not look at the interval: with an interval of 0 minutes, a
  parsable chat id and a log file that opens, it returns a scheduler.
\<close>

theorem NewScheduler_accepts_zero_interval:
  "\<not> (0 :: real) < 0
   \<and> \<not> isl (fst (NewScheduler ''123'' ''token'' 0 0 2 5 ''logs/api_check.log'' example_world))
   \<and> intervalMinutes (projr (fst (NewScheduler ''123'' ''token'' 0 0 2 5 ''logs/api_check.log''
        example_world))) = 0"
  by (simp add: NewScheduler_def ParseInt_def ParseUint_def is_digit_def make_chan_def
        RegisterAPI_def Let_def example_defs)

text \<open>
  Claim C8, amended. Construction fails exactly when the chat id does not parse as a
  signed 64-bit decimal integer or the log file cannot be opened. The tick interval, the
  run count, the retry count and the base delay are stored as given, whatever their
  values.
\<close>

theorem NewScheduler_fails_iff:
  "isl (fst (NewScheduler chatIDStr cl iv runs retries delay logFilePath w))
     = (isl (ParseInt chatIDStr) \<or> \<not> fileOpens (env w) logFilePath)
   \<and> (\<forall>s w'. NewScheduler chatIDStr cl iv runs retries delay logFilePath w = (Inr s, w') \<longrightarrow>
         intervalMinutes s = iv \<and> runCount s = runs \<and> retryCount s = retries
         \<and> retryDelaySec s = delay \<and> ParseInt chatIDStr = Inr (chatID s))"
  by (auto simp: NewScheduler_def Let_def make_chan_def RegisterAPI_def
           split: sum.splits if_splits)

theorem NewScheduler_fails_iff_witness:
  "isl (ParseInt ''12a'') \<and> fileOpens (env example_world) ''logs/api_check.log''
   \<and> isl (fst (NewScheduler ''12a'' ''token'' 5 0 2 5 ''logs/api_check.log'' example_world))
   \<and> \<not> isl (ParseInt ''123'')
   \<and> \<not> isl (fst (NewScheduler ''123'' ''token'' (- 1) 0 2 5 ''logs/api_check.log'' example_world))"
proof -
  have h: "isl (ParseInt ''12a'')" "\<not> isl (ParseInt ''123'')"
    "fileOpens (env example_world) ''logs/api_check.log''"
    by (simp_all add: ParseInt_def ParseUint_def is_digit_def example_defs)
  from NewScheduler_fails_iff [of "''12a''" "''token''" 5 0 2 5 "''logs/api_check.log''" example_world]
    NewScheduler_fails_iff [of "''123''" "''token''" "- 1" 0 2 5 "''logs/api_check.log''" example_world]
    h
  show ?thesis by simp
qed

subsection \<open>Start and Stop\<close>

lemma chan_ok_NewScheduler:
  "NewScheduler chatIDStr cl iv runs retries delay logFilePath w = (Inr s, w') \<Longrightarrow> chan_ok s w'"
  by (auto simp: NewScheduler_def chan_ok_def Let_def RegisterAPI_def make_chan_def
           split: sum.splits if_splits)

lemma chan_ok_Start: "Start s w = (r, s', w') \<Longrightarrow> chan_ok s w \<Longrightarrow> chan_ok s' w'"
  by (auto simp: Start_def chan_ok_def Let_def make_chan_def logTerminal_def is_open_def
           split: if_splits)

lemma chan_ok_Stop: "exit_state (Stop s w) = (s', w') \<Longrightarrow> chan_ok s' w'"
  by (auto simp: Stop_def chan_ok_def Let_def split: if_splits)

text \<open>
  Claim C6. \<open>Stop\<close> on a scheduler that is not running returns at once and changes
  nothing. On a running scheduler (whose stop channel is open, as \<open>Start\<close> leaves it) it
  clears the running flag and closes the stop channel before it returns or waits for the
  loop. In every case the state \<open>Stop\<close> leaves has \<open>IsRunning\<close> false, and so has the
  scheduler the constructor returns, before any \<open>Start\<close>.
\<close>

theorem Stop_leaves_not_running:
  "(\<not> running s \<longrightarrow> Stop s w = Returns (s, w))
   \<and> (running s \<and> is_open w (stopChan s) \<longrightarrow>
        (\<exists>w'. (Stop s w = Returns (s\<lparr>running := False\<rparr>, w')
                \<or> Stop s w = Parks (s\<lparr>running := False\<rparr>, w'))
           \<and> closed w' (stopChan s)))
   \<and> \<not> IsRunning (fst (exit_state (Stop s w)))
   \<and> (\<forall>s0 w1. NewScheduler chatIDStr cl iv runs retries delay logFilePath w0 = (Inr s0, w1)
         \<longrightarrow> \<not> IsRunning s0)"
proof -
  have a: "\<not> running s \<longrightarrow> Stop s w = Returns (s, w)"
    by (simp add: Stop_def)
  have b: "running s \<and> is_open w (stopChan s) \<longrightarrow>
        (\<exists>w'. (Stop s w = Returns (s\<lparr>running := False\<rparr>, w')
                \<or> Stop s w = Parks (s\<lparr>running := False\<rparr>, w'))
           \<and> closed w' (stopChan s))"
    by (auto simp: Stop_def Let_def is_open_def closed_def close_chan_def logTerminal_def)
  have c: "\<not> IsRunning (fst (exit_state (Stop s w)))"
    by (simp add: Stop_def Let_def IsRunning_def)
  have d: "\<forall>s0 w1. NewScheduler chatIDStr cl iv runs retries delay logFilePath w0 = (Inr s0, w1)
         \<longrightarrow> \<not> IsRunning s0"
    by (auto simp: NewScheduler_def Let_def RegisterAPI_def make_chan_def IsRunning_def
             split: sum.splits if_splits)
  from a b c d show ?thesis by blast
qed

theorem Stop_leaves_not_running_witness:
  "\<not> running (example_scheduler\<lparr>running := False\<rparr>)
   \<and> Stop (example_scheduler\<lparr>running := False\<rparr>) stopped_world
       = Returns (example_scheduler\<lparr>running := False\<rparr>, stopped_world)
   \<and> running example_scheduler \<and> is_open running_world (stopChan example_scheduler)
   \<and> (\<exists>w'. Stop example_scheduler running_world = Parks (example_scheduler\<lparr>running := False\<rparr>, w')
          \<and> closed w' (stopChan example_scheduler))
   \<and> \<not> IsRunning (fst (exit_state (Stop example_scheduler running_world)))
   \<and> \<not> isl (fst (NewScheduler ''42'' ''token'' 5 0 2 5 ''logs/api_check.log'' example_world))
   \<and> \<not> IsRunning (projr (fst (NewScheduler ''42'' ''token'' 5 0 2 5 ''logs/api_check.log''
          example_world)))"
proof -
  let ?n = "NewScheduler ''42'' ''token'' 5 0 2 5 ''logs/api_check.log'' example_world"
  have h: "\<not> running (example_scheduler\<lparr>running := False\<rparr>)" "running example_scheduler"
    "is_open running_world (stopChan example_scheduler)"
    "\<forall>w'. Stop example_scheduler running_world \<noteq> Returns (example_scheduler\<lparr>running := False\<rparr>, w')"
    by (simp_all add: is_open_def Stop_def close_chan_def logTerminal_def Let_def example_defs)
  have n: "\<not> isl (fst ?n)"
    by (simp add: NewScheduler_def ParseInt_def ParseUint_def is_digit_def make_chan_def
          RegisterAPI_def Let_def example_defs)
  then have n': "?n = (Inr (projr (fst ?n)), snd ?n)"
    by (cases ?n) (auto simp: isl_def)
  from Stop_leaves_not_running [of "example_scheduler\<lparr>running := False\<rparr>" stopped_world]
    Stop_leaves_not_running [of example_scheduler running_world
      "''42''" "''token''" 5 0 2 5 "''logs/api_check.log''" example_world] h n n'
  show ?thesis by blast
qed

text \<open>
  Claim C7. \<open>Start\<close> on a running scheduler returns the error
  \<open>scheduler already running\<close> and leaves the scheduler and the world exactly as they
  were: running flag, stop channel, WaitGroup counter and launched loops. On a scheduler
  that is not running it returns no error, sets the running flag, makes a channel that did
  not exist before and is open, leaves the other channels alone, adds one to the
  WaitGroup counter and launches one loop.
\<close>

theorem Start_rejects_second_start:
  "(running s \<longrightarrow> Start s w = (Some (Errorf ''scheduler already running''), s, w))
   \<and> (\<not> running s \<longrightarrow>
        (\<exists>s' w'. Start s w = (None, s', w') \<and> running s'
           \<and> stopChan s' = length (chans w) \<and> is_open w' (stopChan s')
           \<and> length (chans w') = Suc (length (chans w))
           \<and> take (length (chans w)) (chans w') = chans w
           \<and> wg s' = wg s + 1 \<and> spawned w' = spawned w + 1))"
  by (simp add: Start_def make_chan_def Let_def logTerminal_def is_open_def)

theorem Start_rejects_second_start_witness:
  "running example_scheduler
   \<and> Start example_scheduler running_world
       = (Some (Errorf ''scheduler already running''), example_scheduler, running_world)
   \<and> \<not> running (example_scheduler\<lparr>running := False\<rparr>)
   \<and> (\<exists>s' w'. Start (example_scheduler\<lparr>running := False\<rparr>) stopped_world = (None, s', w')
          \<and> running s' \<and> stopChan s' = 1 \<and> is_open w' (stopChan s') \<and> chans w' = [True, False])"
proof -
  have h: "running example_scheduler" "\<not> running (example_scheduler\<lparr>running := False\<rparr>)"
    "chans stopped_world = [True]"
    by (simp_all add: example_defs)
  from Start_rejects_second_start [of example_scheduler running_world]
    Start_rejects_second_start [of "example_scheduler\<lparr>running := False\<rparr>" stopped_world] h
  show ?thesis by (auto simp: length_Suc_conv is_open_def)
qed

subsection \<open>The run loop\<close>

lemma Stop_parks:
  assumes "running s" "is_open w (stopChan s)" "wg s \<noteq> 0"
  shows "\<exists>w'. Stop s w = Parks (s\<lparr>running := False\<rparr>, w') \<and> closed w' (stopChan s)"
  using assms by (simp add: Stop_def Let_def is_open_def closed_def close_chan_def logTerminal_def)

lemma runLoop_wait_limit:
  assumes "0 < runCount s" "running s" "wg s \<noteq> 0" "set (apiOrder s) \<subseteq> dom (apiCalls s)"
  shows "\<lbrakk>m = nat (runCount s - (count + 1)); extStop w = None; is_open w (stopChan s)\<rbrakk> \<Longrightarrow>
     \<exists>w'. runLoop_wait ival count s w
             = Some (Parks (max (count + 1) (runCount s), s\<lparr>running := False\<rparr>, w'))
        \<and> closed w' (stopChan s)"
proof (induction m arbitrary: count w)
  case 0
  let ?w1 = "advance_to (now (env w) + ival) w"
  have a: "await ival s w = (False, s, ?w1)"
    using 0 by (simp add: await_quiet is_open_not_closed)
  have q1: "extStop ?w1 = None" "\<not> closed ?w1 (stopChan s)"
    using 0 by (simp_all add: is_open_not_closed)
  from runOnce_quiet [OF q1 assms(4)]
  obtain w2 where w2: "runOnce s ?w1 = Returns (s, w2)" "extStop w2 = None" "chans w2 = chans ?w1"
    by blast
  let ?w3 = "logTerminal ''INF'' (emoji_flag @ '' Reached runCount limit '' @ itoa (runCount s)
                @ '', stopping loop'') w2"
  have q3: "extStop ?w3 = None" "is_open ?w3 (stopChan s)"
    using w2 0(3) by (simp_all add: is_open_def logTerminal_def advance_to_def)
  from Stop_parks [OF assms(2) q3(2) assms(3)]
  obtain w' where w': "Stop s ?w3 = Parks (s\<lparr>running := False\<rparr>, w')" "closed w' (stopChan s)"
    by blast
  have lim: "runCount s \<le> count + 1" using 0(1) by simp
  have "runLoop_wait ival count s w = Some (Parks (count + 1, s\<lparr>running := False\<rparr>, w'))"
    using a w2(1) assms(1) lim q3(1) w'(1)
    by (subst runLoop_wait.simps) (simp add: sync_quiet Let_def)
  with lim w'(2) show ?case by (simp add: max_def)
next
  case (Suc m)
  let ?w1 = "advance_to (now (env w) + ival) w"
  have a: "await ival s w = (False, s, ?w1)"
    using Suc.prems by (simp add: await_quiet is_open_not_closed)
  have q1: "extStop ?w1 = None" "\<not> closed ?w1 (stopChan s)"
    using Suc.prems by (simp_all add: is_open_not_closed)
  from runOnce_quiet [OF q1 assms(4)]
  obtain w2 where w2: "runOnce s ?w1 = Returns (s, w2)" "extStop w2 = None" "chans w2 = chans ?w1"
    by blast
  have o2: "is_open w2 (stopChan s)"
    using w2(3) Suc.prems(3) by (simp add: is_open_def advance_to_def)
  have lim: "\<not> runCount s \<le> count + 1" using Suc.prems(1) by simp
  have step: "runLoop_wait ival count s w = runLoop_wait ival (count + 1) s w2"
    using a w2(1) lim by (subst runLoop_wait.simps) simp
  have "m = nat (runCount s - (count + 1 + 1))" using Suc.prems(1) by simp
  from Suc.IH [OF this w2(2) o2] step lim show ?case by (simp add: max_def)
qed

lemma runLoop_reaches_limit:
  assumes "0 < runCount s" "running s" "wg s \<noteq> 0" "set (apiOrder s) \<subseteq> dom (apiCalls s)"
    and "extStop w = None" "is_open w (stopChan s)"
  shows "\<exists>w'. runLoop s w = Some (Parks (max 2 (runCount s), s\<lparr>running := False\<rparr>, w'))
           \<and> closed w' (stopChan s)"
proof -
  from runOnce_quiet [OF assms(5) is_open_not_closed [OF assms(6)] assms(4)]
  obtain w1 where w1: "runOnce s w = Returns (s, w1)" "extStop w1 = None" "chans w1 = chans w"
    by blast
  have o1: "is_open w1 (stopChan s)" using w1(3) assms(6) by (simp add: is_open_def)
  from runLoop_wait_limit [OF assms(1-4) refl w1(2) o1, where count=1 and ival="interval s"] w1(1)
  show ?thesis by (simp add: runLoop_def)
qed

lemma started_for_state:
  "fileOpens (env w) ''logs/api_check.log'' \<Longrightarrow>
   \<exists>s w'. started_for n w = Some (s, w') \<and> runCount s = n \<and> running s \<and> wg s = 1
      \<and> set (apiOrder s) \<subseteq> dom (apiCalls s) \<and> extStop w' = extStop w \<and> is_open w' (stopChan s)"
  by (simp add: started_for_def NewScheduler_def ParseInt_def ParseUint_def is_digit_def
        Start_def make_chan_def logTerminal_def RegisterAPI_def is_open_def Let_def nth_append)

text \<open>
  Claim C1 says that with a run count \<open>N > 0\<close> the loop runs exactly \<open>N\<close> cycles, stops
  and terminates on its own. The source checks the run count only after a cycle started
  by the timer, never after the first cycle, and it calls \<open>Stop\<close> from the loop itself,
  where \<open>wg.Wait()\<close> waits for the loop's own deferred \<open>wg.Done()\<close>. For the scheduler
  the constructor builds with a run count of 1, once started and with no other caller of
  \<open>Stop\<close>, the loop runs 2 cycles and is then held in \<open>Stop\<close> for ever; with a run count
  of 3 it runs 3 cycles and is held in the same way. \<open>IsRunning\<close> is false afterwards and
  the WaitGroup counter stays at 1.
\<close>

theorem runLoop_overruns_and_parks:
  "(\<exists>s w s' w'. started_for 1 example_world = Some (s, w)
      \<and> runLoop s w = Some (Parks (2, s', w')) \<and> \<not> IsRunning s' \<and> wg s' = 1)
   \<and> (\<exists>s w s' w'. started_for 3 example_world = Some (s, w)
      \<and> runLoop s w = Some (Parks (3, s', w')) \<and> \<not> IsRunning s' \<and> wg s' = 1)"
proof -
  have f: "fileOpens (env example_world) ''logs/api_check.log''"
    "extStop example_world = None"
    by (simp_all add: example_defs)
  have "\<exists>s w s' w'. started_for n example_world = Some (s, w)
      \<and> runLoop s w = Some (Parks (max 2 n, s', w')) \<and> \<not> IsRunning s' \<and> wg s' = 1"
    if "0 < n" for n
  proof -
    from started_for_state [OF f(1), of n] f(2)
    obtain s w where s: "started_for n example_world = Some (s, w)" "runCount s = n" "running s"
      "wg s = 1" "set (apiOrder s) \<subseteq> dom (apiCalls s)" "extStop w = None"
      "is_open w (stopChan s)"
      by auto
    from runLoop_reaches_limit [of s w] s that
    obtain w' where "runLoop s w = Some (Parks (max 2 n, s\<lparr>running := False\<rparr>, w'))"
      by auto
    with s show ?thesis by (auto simp: IsRunning_def)
  qed
  from this [of 1] this [of 3] show ?thesis by simp
qed

end
